theory Spec2Isabelle
  imports Main "HOL-Library.Product_Lexorder" "HOL-Library.Multiset"
begin

section \<open>Values: timestamps and string formatting\<close>

text \<open>
  psycopg2 hands a timestamp column back as a Python \<open>datetime\<close>: a record of calendar
  fields, compared field by field from the year down to the microsecond.  The database
  compares the same values in the same order, so one key serves both.
\<close>

record datetime =
  dt_year :: nat
  dt_month :: nat
  dt_day :: nat
  dt_hour :: nat
  dt_minute :: nat
  dt_second :: nat
  dt_microsecond :: nat

definition dt_key :: "datetime \<Rightarrow> nat \<times> nat \<times> nat \<times> nat \<times> nat \<times> nat \<times> nat" where
  "dt_key d = (dt_year d, dt_month d, dt_day d, dt_hour d, dt_minute d, dt_second d,
               dt_microsecond d)"

text \<open>Python's \<open>str\<close> of a non-negative integer, as the f-strings of the source use it.\<close>

definition digit_char :: "nat \<Rightarrow> char" where
  "digit_char d = ''0123456789'' ! d"

fun str_nat :: "nat \<Rightarrow> string" where
  "str_nat n = (if n < 10 then [digit_char n]
                else str_nat (n div 10) @ [digit_char (n mod 10)])"

declare str_nat.simps [simp del]

definition zfill :: "nat \<Rightarrow> string \<Rightarrow> string" where
  "zfill w s = replicate (w - length s) (CHR ''0'') @ s"

text \<open>
  \<open>strftime("%Y-%m-%d %H:%M:%S")\<close>: each field in decimal, padded with zeros to its
  width.  (For the years 1000 to 9999, which is every value \<open>CURRENT_TIMESTAMP\<close> yields,
  padding the year changes nothing.)
\<close>

definition strftime :: "datetime \<Rightarrow> string" where
  "strftime d =
     zfill 4 (str_nat (dt_year d)) @ ''-'' @ zfill 2 (str_nat (dt_month d)) @ ''-'' @
     zfill 2 (str_nat (dt_day d)) @ '' '' @ zfill 2 (str_nat (dt_hour d)) @ '':'' @
     zfill 2 (str_nat (dt_minute d)) @ '':'' @ zfill 2 (str_nat (dt_second d))"

section \<open>The persisted state\<close>

record student =
  student_id :: nat
  email :: string
  name :: string
  st_created_at :: datetime
  last_login :: datetime

record session =
  session_id :: string
  s_student_id :: nat
  ai_client_type :: string
  s_created_at :: datetime
  status :: string

record message =
  message_id :: nat
  m_session_id :: string
  sender_type :: string
  content :: string
  sequence_number :: int
  m_created_at :: datetime

text \<open>Each table is the list of its rows in insertion order.\<close>

record db =
  students :: "student list"
  sessions :: "session list"
  messages :: "message list"


datatype db_error = OperationalError | UniqueViolation | ForeignKeyViolation | ValueError

section \<open>The driver\<close>

text \<open>
  psycopg2 adapts the string parameters of a query before it sends the query, and raises
  \<open>ValueError\<close> (a string literal cannot contain NUL characters) for a string that holds
  the character with code 0.  The query does not reach the server then.  The refusal is
  modelled for the two statements of \<open>save_message\<close>, through which message text enters
  the store.
\<close>

definition has_nul :: "string \<Rightarrow> bool" where
  "has_nul s = (CHR 0x00 \<in> set s)"

section \<open>The schema\<close>

text \<open>
  Modelled from the spec: the table declarations are not part of the source files.  The
  logical schema gives \<open>students(student_id PK, email UNIQUE NOT NULL, ...)\<close>,
  \<open>sessions(session_id PK, student_id FK \<rightarrow> students, ...)\<close> and
  \<open>messages(message_id PK, session_id FK \<rightarrow> sessions, ...)\<close>.  The two integer keys are
  not supplied by the \<open>INSERT\<close> statements of the source, so the store generates them:
  here one more than the largest key in the table.  A text column keeps the string it is
  given unchanged.
\<close>

text \<open>Modelled from the spec: the key that the store generates for a new row.\<close>

definition next_id :: "nat list \<Rightarrow> nat" where
  "next_id ks = Suc (fold max ks 0)"

text \<open>
  Modelled from the spec: the \<open>students\<close> table, with \<open>email UNIQUE\<close> and a generated
  \<open>student_id\<close>, as the \<open>INSERT ... RETURNING student_id\<close> of the source meets it.
\<close>

definition insert_student ::
  "string \<Rightarrow> string \<Rightarrow> datetime \<Rightarrow> db \<Rightarrow> (db_error + nat) \<times> db" where
  "insert_student e n now d =
     (if e \<in> set (map email (students d)) then (Inl UniqueViolation, d)
      else let k = next_id (map student_id (students d)) in
        (Inr k, d\<lparr>students := students d @
               [\<lparr>student_id = k, email = e, name = n, st_created_at = now,
                 last_login = now\<rparr>]\<rparr>))"

text \<open>
  Modelled from the spec: the \<open>sessions\<close> table, with \<open>session_id\<close> as primary key and
  \<open>student_id\<close> referencing \<open>students\<close>.  The source inserts the status \<open>'active'\<close>.
\<close>

definition insert_session ::
  "string \<Rightarrow> nat \<Rightarrow> string \<Rightarrow> datetime \<Rightarrow> db \<Rightarrow> (db_error + unit) \<times> db" where
  "insert_session sid stud ai now d =
     (if sid \<in> set (map session_id (sessions d)) then (Inl UniqueViolation, d)
      else if stud \<notin> set (map student_id (students d)) then (Inl ForeignKeyViolation, d)
      else (Inr (), d\<lparr>sessions := sessions d @
               [\<lparr>session_id = sid, s_student_id = stud, ai_client_type = ai,
                 s_created_at = now, status = ''active''\<rparr>]\<rparr>))"

text \<open>
  Modelled from the spec: the \<open>messages\<close> table, with a generated \<open>message_id\<close> and
  \<open>session_id\<close> referencing \<open>sessions\<close>.  The pair \<open>(session_id, sequence_number)\<close> is
  not declared unique.  The \<open>INSERT\<close> of the source passes the session id, the sender
  type and the message text as string parameters, so the driver refuses it when one of
  them holds a NUL character.
\<close>

definition insert_message ::
  "string \<Rightarrow> string \<Rightarrow> string \<Rightarrow> int \<Rightarrow> datetime \<Rightarrow> db \<Rightarrow> (db_error + unit) \<times> db" where
  "insert_message sid sender txt seq now d =
     (if has_nul sid \<or> has_nul sender \<or> has_nul txt then (Inl ValueError, d)
      else if sid \<notin> set (map session_id (sessions d)) then (Inl ForeignKeyViolation, d)
      else (Inr (), d\<lparr>messages := messages d @
               [\<lparr>message_id = next_id (map message_id (messages d)), m_session_id = sid,
                 sender_type = sender, content = txt, sequence_number = seq,
                 m_created_at = now\<rparr>]\<rparr>))"

section \<open>Connection scope\<close>

text \<open>
  \<open>get_db_connection\<close> is a context manager around one connection.  The world outside a
  transaction is the committed state, whether the server can be reached, and the number
  of connections currently open.  A transaction body works on its own copy of the
  committed state and hands back its outcome together with that copy, whether it ended
  normally or raised; \<open>commit\<close> installs the copy, \<open>rollback\<close> drops it.
\<close>

record world =
  persisted :: db
  db_up :: bool
  open_connections :: nat

definition connect :: "world \<Rightarrow> world" where
  "connect w = w\<lparr>open_connections := Suc (open_connections w)\<rparr>"

definition commit :: "db \<Rightarrow> world \<Rightarrow> world" where
  "commit d w = w\<lparr>persisted := d\<rparr>"

definition rollback :: "db \<Rightarrow> world \<Rightarrow> world" where
  "rollback d w = w"

definition close :: "world \<Rightarrow> world" where
  "close w = w\<lparr>open_connections := open_connections w - 1\<rparr>"

text \<open>
  \<open>psycopg2.connect\<close> raises when the server is unreachable; \<open>conn\<close> is then still
  \<open>None\<close>, so neither \<open>rollback\<close> nor \<open>close\<close> runs and the exception leaves the
  manager.  Otherwise the body runs: a normal end (also a \<open>return\<close> inside the \<open>with\<close>
  block) commits, an exception rolls back and is raised again, and \<open>finally\<close> closes the
  connection on both paths.  On a reachable server \<open>commit\<close>, \<open>rollback\<close> and \<open>close\<close>
  themselves are taken to succeed.
\<close>

definition get_db_connection ::
  "(db \<Rightarrow> (db_error + 'a) \<times> db) \<Rightarrow> world \<Rightarrow> (db_error + 'a) \<times> world" where
  "get_db_connection body w =
     (if \<not> db_up w then (Inl OperationalError, w)
      else let w1 = connect w in
        (case body (persisted w1) of
           (Inr r, d') \<Rightarrow> (Inr r, close (commit d' w1))
         | (Inl e, d') \<Rightarrow> (Inl e, close (rollback d' w1))))"

section \<open>Student registry\<close>





section \<open>Session store\<close>

definition count_sessions :: "nat \<Rightarrow> db \<Rightarrow> nat" where
  "count_sessions stud d = length (filter (\<lambda>s. s_student_id s = stud) (sessions d))"

text \<open>
  The token \<open>str(uuid.uuid4())\<close> is drawn at random; the draw is the argument \<open>sid\<close>.
\<close>

definition create_session_body ::
  "nat \<Rightarrow> string \<Rightarrow> string \<Rightarrow> datetime \<Rightarrow> db \<Rightarrow> (db_error + string \<times> string) \<times> db" where
  "create_session_body stud ai sid now d =
     (let count = count_sessions stud d;
          session_name = ''Session-'' @ str_nat (count + 1)
      in case insert_session sid stud ai now d of
           (Inl e, d') \<Rightarrow> (Inl e, d')
         | (Inr _, d') \<Rightarrow> (Inr (sid, session_name), d'))"

definition create_session ::
  "nat \<Rightarrow> string \<Rightarrow> string \<Rightarrow> datetime \<Rightarrow> world \<Rightarrow> (db_error + string \<times> string) \<times> world" where
  "create_session stud ai sid now = get_db_connection (create_session_body stud ai sid now)"



section \<open>Message log\<close>

text \<open>\<open>SELECT COALESCE(MAX(sequence_number), 0) + 1\<close> over the messages of one session.\<close>

definition next_seq :: "string \<Rightarrow> db \<Rightarrow> int" where
  "next_seq sid d =
     (case map sequence_number (filter (\<lambda>m. m_session_id m = sid) (messages d)) of
        [] \<Rightarrow> 0
      | q # qs \<Rightarrow> fold max qs q) + 1"

text \<open>
  The first statement of \<open>save_message\<close>: the query above, with the session id as its
  string parameter.
\<close>

definition select_next_seq :: "string \<Rightarrow> db \<Rightarrow> (db_error + int) \<times> db" where
  "select_next_seq sid d =
     (if has_nul sid then (Inl ValueError, d) else (Inr (next_seq sid d), d))"

definition save_message_body ::
  "string \<Rightarrow> string \<Rightarrow> string \<Rightarrow> datetime \<Rightarrow> db \<Rightarrow> (db_error + unit) \<times> db" where
  "save_message_body sid sender txt now d =
     (case select_next_seq sid d of
        (Inl e, d') \<Rightarrow> (Inl e, d')
      | (Inr seq, d') \<Rightarrow> insert_message sid sender txt seq now d')"

definition save_message ::
  "string \<Rightarrow> string \<Rightarrow> string \<Rightarrow> datetime \<Rightarrow> world \<Rightarrow> (db_error + unit) \<times> world" where
  "save_message sid sender txt now = get_db_connection (save_message_body sid sender txt now)"

section \<open>Conversation reader\<close>

record history_entry =
  h_role :: string
  h_content :: string
  h_timestamp :: string

text \<open>
  \<open>ORDER BY sequence_number ASC\<close>: a sort by the key; rows with equal keys (whose order
  SQL leaves open) stay in table order.
\<close>

definition select_messages :: "string \<Rightarrow> db \<Rightarrow> message list" where
  "select_messages sid d =
     sort_key sequence_number (filter (\<lambda>m. m_session_id m = sid) (messages d))"

definition get_conversation_history_body ::
  "string \<Rightarrow> db \<Rightarrow> (db_error + history_entry list) \<times> db" where
  "get_conversation_history_body sid d =
     (let messages = select_messages sid d
      in (Inr (map (\<lambda>msg. \<lparr>h_role = sender_type msg, h_content = content msg,
                              h_timestamp = strftime (m_created_at msg)\<rparr>)
                   messages), d))"

definition get_conversation_history ::
  "string \<Rightarrow> world \<Rightarrow> (db_error + history_entry list) \<times> world" where
  "get_conversation_history sid = get_db_connection (get_conversation_history_body sid)"

section \<open>Session lister\<close>


text \<open>\<open>sessions s JOIN students st ON s.student_id = st.student_id\<close>.\<close>

definition sessions_join_students :: "db \<Rightarrow> (session \<times> student) list" where
  "sessions_join_students d =
     [(s, st). s \<leftarrow> sessions d, st \<leftarrow> students d, s_student_id s = student_id st]"








section \<open>Single-session name lookup\<close>

text \<open>
  The outer query selects the sessions with the given id whose owner has the given email;
  the scalar subquery counts the sessions of students with that email that were created
  at or after the selected one.  \<open>fetchone\<close> takes the first row.
\<close>

definition select_session_number :: "string \<Rightarrow> string \<Rightarrow> db \<Rightarrow> nat option" where
  "select_session_number sid e d =
     (case filter (\<lambda>(s, st). session_id s = sid \<and> email st = e) (sessions_join_students d) of
        [] \<Rightarrow> None
      | (s, st) # _ \<Rightarrow>
          Some (length (filter (\<lambda>(s2, st2). email st2 = e \<and>
                                  dt_key (s_created_at s2) \<ge> dt_key (s_created_at s))
                               (sessions_join_students d))))"

definition get_session_name_body ::
  "string \<Rightarrow> string \<Rightarrow> db \<Rightarrow> (db_error + string option) \<times> db" where
  "get_session_name_body sid e d =
     (case select_session_number sid e d of
        Some session_number \<Rightarrow> (Inr (Some (''Session-'' @ str_nat session_number)), d)
      | None \<Rightarrow> (Inr None, d))"

definition get_session_name ::
  "string \<Rightarrow> string \<Rightarrow> world \<Rightarrow> (db_error + string option) \<times> world" where
  "get_session_name sid e = get_db_connection (get_session_name_body sid e)"

section \<open>Sequences of calls\<close>


text \<open>A caller that appends messages to one session one after the other.\<close>

fun save_messages ::
  "string \<Rightarrow> (string \<times> string \<times> datetime) list \<Rightarrow> world \<Rightarrow>
   (db_error + unit) list \<times> world" where
  "save_messages sid [] w = ([], w)"
| "save_messages sid ((sender, txt, now) # rest) w =
     (case save_message sid sender txt now w of (r, w') \<Rightarrow>
      case save_messages sid rest w' of (rs, w'') \<Rightarrow> (r # rs, w''))"



text \<open>The history entry that an appended message is read back as.\<close>

definition history_entry_of :: "string \<times> string \<times> datetime \<Rightarrow> history_entry" where
  "history_entry_of = (\<lambda>(sender, txt, now).
     \<lparr>h_role = sender, h_content = txt, h_timestamp = strftime now\<rparr>)"




text \<open>
  Two calls of \<open>save_message\<close> on the same session over two connections, scheduled so
  that the \<open>SELECT\<close> of each call runs before the \<open>INSERT\<close> of either: both read the
  same committed messages.  Each call commits its \<open>INSERT\<close> when it ends; the result is
  the outcome of each call and the committed state after both.
\<close>

definition save_message_reads_first ::
  "string \<Rightarrow> string \<times> string \<times> datetime \<Rightarrow> string \<times> string \<times> datetime \<Rightarrow> db \<Rightarrow>
   ((db_error + unit) \<times> (db_error + unit)) \<times> db" where
  "save_message_reads_first sid a b d =
     (case (a, b) of ((sender_a, txt_a, now_a), (sender_b, txt_b, now_b)) \<Rightarrow>
        let (read_a, _) = select_next_seq sid d;
            (read_b, _) = select_next_seq sid d;
            (r_a, d1) = (case read_a of
                           Inl e \<Rightarrow> (Inl e, d)
                         | Inr seq_a \<Rightarrow> insert_message sid sender_a txt_a seq_a now_a d);
            (r_b, d2) = (case read_b of
                           Inl e \<Rightarrow> (Inl e, d1)
                         | Inr seq_b \<Rightarrow> insert_message sid sender_b txt_b seq_b now_b d1)
        in ((r_a, r_b), d2))"

section \<open>Sample data\<close>

text \<open>Small stores on which the operations are run on concrete inputs.\<close>

definition at_second :: "nat \<Rightarrow> datetime" where
  "at_second n = \<lparr>dt_year = 2025, dt_month = 1, dt_day = 2, dt_hour = 3, dt_minute = 4,
                   dt_second = n, dt_microsecond = 0\<rparr>"

definition ann :: student where
  "ann = \<lparr>student_id = 1, email = ''ann@x.org'', name = ''Ann'', st_created_at = at_second 1,
          last_login = at_second 1\<rparr>"

definition bob :: student where
  "bob = \<lparr>student_id = 2, email = ''bob@x.org'', name = ''Bob'', st_created_at = at_second 2,
          last_login = at_second 2\<rparr>"

definition hello_message :: message where
  "hello_message = \<lparr>message_id = 1, m_session_id = ''s-a1'', sender_type = ''user'',
     content = ''hello'', sequence_number = 1, m_created_at = at_second 6\<rparr>"

text \<open>Ann has two sessions, the first with one message; Bob has one session.\<close>

definition sample_db :: db where
  "sample_db =
     \<lparr>students = [ann, bob],
      sessions =
        [\<lparr>session_id = ''s-a1'', s_student_id = 1, ai_client_type = ''Pritam'',
          s_created_at = at_second 3, status = ''active''\<rparr>,
         \<lparr>session_id = ''s-b1'', s_student_id = 2, ai_client_type = ''Jitesh'',
          s_created_at = at_second 4, status = ''active''\<rparr>,
         \<lparr>session_id = ''s-a2'', s_student_id = 1, ai_client_type = ''Pritam'',
          s_created_at = at_second 5, status = ''active''\<rparr>],
      messages = [hello_message]\<rparr>"

definition sample_world :: world where
  "sample_world = \<lparr>persisted = sample_db, db_up = True, open_connections = 0\<rparr>"

text \<open>Ann has no session yet; Bob has one.\<close>

definition fresh_world :: world where
  "fresh_world =
     \<lparr>persisted = \<lparr>students = [ann, bob],
        sessions = [\<lparr>session_id = ''s-b1'', s_student_id = 2, ai_client_type = ''Jitesh'',
                     s_created_at = at_second 2, status = ''active''\<rparr>],
        messages = []\<rparr>,
      db_up = True, open_connections = 0\<rparr>"



text \<open>
  A message text with a two-byte UTF-8 character (U+00EF) and a line feed in it.
\<close>

definition unicode_text :: string where
  "unicode_text = ''na'' @ [CHR 0xC3, CHR 0xAF] @ ''ve'' @ [CHR 0x0A] @ ''second line''"

definition two_messages :: "(string \<times> string \<times> datetime) list" where
  "two_messages = [(''user'', ''hi'', at_second 7), (''assistant'', unicode_text, at_second 8)]"

text \<open>A message text with a NUL character in it.\<close>

definition nul_text :: string where
  "nul_text = ''a'' @ [CHR 0x00] @ ''b''"




text \<open>A transaction body that inserts a student and then fails on a foreign key.\<close>

definition write_then_fail :: "db \<Rightarrow> (db_error + unit) \<times> db" where
  "write_then_fail d =
     (case insert_student ''cy@x.org'' ''Cy'' (at_second 7) d of
        (Inl e, d') \<Rightarrow> (Inl e, d')
      | (Inr _, d') \<Rightarrow> insert_message ''missing'' ''user'' ''x'' 1 (at_second 7) d')"

lemmas format_defs = str_nat.simps digit_char_def zfill_def strftime_def dt_key_def

section \<open>Connection scope: commit, rollback, release\<close>

lemma get_db_connection_up:
  "db_up w \<Longrightarrow> get_db_connection body w =
     (case body (persisted w) of
        (Inr r, d') \<Rightarrow> (Inr r, w\<lparr>persisted := d'\<rparr>)
      | (Inl e, d') \<Rightarrow> (Inl e, w))"
  by (simp add: get_db_connection_def connect_def commit_def rollback_def close_def
           split: prod.splits sum.splits)

text \<open>
  Claim C6.  Whatever the body does, \<open>get_db_connection\<close> leaves as many connections open
  as it found (the one it acquired is released on every path).  With the server
  reachable, a body that ends normally has its copy of the state committed and its
  result returned; a body that raises has its error propagated and the committed state
  left as it was, whatever the body had written to its copy.  With the server
  unreachable the error is raised and nothing changes.
\<close>

theorem get_db_connection_commits_or_rolls_back:
  "(case get_db_connection body w of (res, w') \<Rightarrow>
      open_connections w' = open_connections w \<and> db_up w' = db_up w \<and>
      (db_up w \<longrightarrow>
         (case body (persisted w) of
            (Inr r, d') \<Rightarrow> res = Inr r \<and> persisted w' = d'
          | (Inl e, d') \<Rightarrow> res = Inl e \<and> persisted w' = persisted w)) \<and>
      (\<not> db_up w \<longrightarrow> res = Inl OperationalError \<and> persisted w' = persisted w))"
  by (simp add: get_db_connection_def connect_def commit_def rollback_def close_def
           split: prod.splits sum.splits)

theorem get_db_connection_commits_or_rolls_back_witness:
  "get_db_connection (save_message_body ''s-b1'' ''user'' ''hi'' (at_second 8)) sample_world =
     (Inr (), sample_world\<lparr>persisted := sample_db\<lparr>messages := messages sample_db @
        [\<lparr>message_id = 2, m_session_id = ''s-b1'', sender_type = ''user'', content = ''hi'',
          sequence_number = 1, m_created_at = at_second 8\<rparr>]\<rparr>\<rparr>) \<and>
   get_db_connection write_then_fail sample_world = (Inl ForeignKeyViolation, sample_world) \<and>
   fst (write_then_fail sample_db) = Inl ForeignKeyViolation \<and>
   snd (write_then_fail sample_db) \<noteq> sample_db \<and>
   get_db_connection write_then_fail (sample_world\<lparr>db_up := False\<rparr>) =
     (Inl OperationalError, sample_world\<lparr>db_up := False\<rparr>)"
  using get_db_connection_commits_or_rolls_back
          [where body = "save_message_body ''s-b1'' ''user'' ''hi'' (at_second 8)"
             and w = sample_world]
        get_db_connection_commits_or_rolls_back
          [where body = write_then_fail and w = sample_world]
        get_db_connection_commits_or_rolls_back
          [where body = write_then_fail and w = "sample_world\<lparr>db_up := False\<rparr>"]
  by (auto simp: at_second_def ann_def bob_def hello_message_def sample_db_def sample_world_def write_then_fail_def save_message_body_def
        select_next_seq_def has_nul_def insert_message_def insert_student_def next_seq_def
        next_id_def
        split: prod.splits)

section \<open>Absence is a result\<close>




section \<open>The email argument of the name lookup\<close>



section \<open>Student registry: two logins\<close>










section \<open>Student registry: the empty email\<close>




section \<open>Message log: numbering and reading back\<close>

lemma save_message_ok:
  assumes "db_up w" and "sid \<in> set (map session_id (sessions (persisted w)))"
    and "\<not> has_nul sid" and "\<not> has_nul sender" and "\<not> has_nul c"
  shows "save_message sid sender c now w =
     (Inr (), w\<lparr>persisted := (persisted w)\<lparr>messages := messages (persisted w) @
        [\<lparr>message_id = next_id (map message_id (messages (persisted w))), m_session_id = sid,
          sender_type = sender, content = c,
          sequence_number = next_seq sid (persisted w), m_created_at = now\<rparr>]\<rparr>\<rparr>)"
  using assms
  by (simp add: save_message_def save_message_body_def select_next_seq_def insert_message_def
        get_db_connection_up)

lemma fold_max_sorted:
  fixes q :: int
  shows "sorted (q # qs) \<Longrightarrow> fold max qs q = last (q # qs)"
  by (induction qs arbitrary: q) (auto simp: max_def)

lemma fold_max_upper:
  fixes q :: int
  shows "x \<in> set (q # qs) \<Longrightarrow> x \<le> fold max qs q"
proof -
  assume "x \<in> set (q # qs)"
  then have "x \<le> Max (set (q # qs))" by (intro Max_ge) auto
  then show ?thesis by (simp only: Max.set_eq_fold)
qed

lemma next_seq_upper:
  assumes "m \<in> set (messages d)" and "m_session_id m = sid"
  shows "sequence_number m < next_seq sid d"
proof -
  let ?qs = "map sequence_number (filter (\<lambda>m. m_session_id m = sid) (messages d))"
  from assms have mem: "sequence_number m \<in> set ?qs" by auto
  then obtain q qs where eq: "?qs = q # qs" by (cases ?qs) auto
  with mem fold_max_upper [of "sequence_number m" q qs]
  have "sequence_number m \<le> fold max qs q" by simp
  with eq show ?thesis by (simp add: next_seq_def)
qed

lemma sorted_int_upt: "sorted (map int [i..<j])"
  by (simp add: sorted_map sorted_wrt_mono_rel [of _ "(<)"] del: upt_Suc)

lemma next_seq_contiguous:
  assumes "map sequence_number (filter (\<lambda>m. m_session_id m = sid) (messages d)) =
           map int [1..<Suc k]"
  shows "next_seq sid d = int (Suc k)"
proof (cases k)
  case 0
  with assms show ?thesis by (simp add: next_seq_def)
next
  case (Suc j)
  then have "map int [1..<Suc k] \<noteq> []" by simp
  then obtain q qs where eq: "map int [1..<Suc k] = q # qs"
    by (cases "map int [1..<Suc k]") auto
  with sorted_int_upt [of 1 "Suc k"] have "fold max qs q = last (map int [1..<Suc k])"
    using fold_max_sorted by metis
  also have "\<dots> = int k" using Suc by (simp add: last_map)
  finally show ?thesis using assms eq by (simp add: next_seq_def)
qed

lemma next_seq_after_append:
  assumes "m_session_id m = sid" and "sequence_number m = next_seq sid d"
  shows "next_seq sid (d\<lparr>messages := messages d @ [m]\<rparr>) = next_seq sid d + 1"
proof (cases "map sequence_number (filter (\<lambda>m. m_session_id m = sid) (messages d))")
  case Nil
  with assms show ?thesis by (simp add: next_seq_def)
next
  case (Cons q qs)
  with assms show ?thesis by (simp add: next_seq_def)
qed

lemma insort_key_snoc:
  "f a \<le> f x \<Longrightarrow> insort_key f a (ys @ [x]) = insort_key f a ys @ [x]"
  by (induction ys) auto

lemma sort_key_snoc:
  "\<forall>y\<in>set xs. f y \<le> f x \<Longrightarrow> sort_key f (xs @ [x]) = sort_key f xs @ [x]"
  by (induction xs) (simp_all add: insort_key_snoc)

lemma save_messages_run:
  assumes "db_up w" and "sid \<in> set (map session_id (sessions (persisted w)))"
    and "map sequence_number (filter (\<lambda>m. m_session_id m = sid) (messages (persisted w))) =
         map int [1..<Suc k]"
    and "\<not> has_nul sid"
    and "\<forall>(sender, c, now)\<in>set ms. \<not> has_nul sender \<and> \<not> has_nul c"
  shows "case save_messages sid ms w of (rs, w') \<Rightarrow>
           rs = replicate (length ms) (Inr ()) \<and> db_up w' \<and>
           map sequence_number (filter (\<lambda>m. m_session_id m = sid) (messages (persisted w'))) =
             map int [1..<Suc (k + length ms)] \<and>
           map (\<lambda>m. (sender_type m, content m, m_created_at m))
               (filter (\<lambda>m. m_session_id m = sid) (messages (persisted w'))) =
             map (\<lambda>m. (sender_type m, content m, m_created_at m))
               (filter (\<lambda>m. m_session_id m = sid) (messages (persisted w))) @ ms"
  using assms
proof (induction ms arbitrary: w k)
  case Nil
  then show ?case by simp
next
  case (Cons req ms)
  obtain sender c now where req: "req = (sender, c, now)" by (cases req) auto
  let ?m = "\<lparr>message_id = next_id (map message_id (messages (persisted w))), m_session_id = sid,
          sender_type = sender, content = c,
          sequence_number = next_seq sid (persisted w), m_created_at = now\<rparr>"
  let ?w = "w\<lparr>persisted := (persisted w)\<lparr>messages := messages (persisted w) @ [?m]\<rparr>\<rparr>"
  have ok: "\<not> has_nul sender" "\<not> has_nul c" using Cons.prems(5) req by auto
  have rest: "\<forall>(sender, c, now)\<in>set ms. \<not> has_nul sender \<and> \<not> has_nul c"
    using Cons.prems(5) by auto
  have step: "save_message sid sender c now w = (Inr (), ?w)"
    using save_message_ok [OF Cons.prems(1,2,4) ok] .
  have ns: "next_seq sid (persisted w) = int (Suc k)"
    using next_seq_contiguous [OF Cons.prems(3)] .
  have up: "db_up ?w" using Cons.prems(1) by simp
  have ex: "sid \<in> set (map session_id (sessions (persisted ?w)))" using Cons.prems(2) by simp
  have inv: "map sequence_number (filter (\<lambda>m. m_session_id m = sid) (messages (persisted ?w))) =
         map int [1..<Suc (Suc k)]"
    using Cons.prems(3) ns by simp
  from Cons.IH [OF up ex inv Cons.prems(4) rest] step req show ?case
    by (auto split: prod.splits)
qed

text \<open>
  Claim C3, as stated, fails: an append whose text holds a NUL character is refused by
  the driver.  One append of such a text to Ann's empty second session raises
  \<open>ValueError\<close> and stores nothing, so after one call of append the history has no entry.
\<close>

theorem append_with_nul_stores_nothing:
  "fst (save_messages ''s-a2'' [(''user'', nul_text, at_second 7)] sample_world) =
     [Inl ValueError] \<and>
   snd (save_messages ''s-a2'' [(''user'', nul_text, at_second 7)] sample_world) =
     sample_world \<and>
   get_conversation_history ''s-a2'' sample_world = (Inr [], sample_world)"
  by (simp add: at_second_def ann_def bob_def hello_message_def sample_db_def sample_world_def
        nul_text_def has_nul_def save_message_def save_message_body_def select_next_seq_def
        insert_message_def get_conversation_history_def get_conversation_history_body_def
        select_messages_def get_db_connection_up)

text \<open>
  Claim C3, amended.  With the server reachable and the session present with no message
  yet, N appends made one after the other, none of whose strings (session id, sender
  type, text) holds a NUL character, all succeed; the session's stored messages then
  carry the sequence numbers 1 to N in table order, and \<open>get_conversation_history\<close>
  returns exactly the N appended messages, in the order of the appends.
\<close>

theorem appended_messages_are_numbered_in_order:
  assumes "db_up w" and "sid \<in> set (map session_id (sessions (persisted w)))"
    and "filter (\<lambda>m. m_session_id m = sid) (messages (persisted w)) = []"
    and "\<not> has_nul sid"
    and "\<forall>(sender, c, now)\<in>set ms. \<not> has_nul sender \<and> \<not> has_nul c"
  shows "case save_messages sid ms w of (rs, w') \<Rightarrow>
           rs = replicate (length ms) (Inr ()) \<and>
           map sequence_number (filter (\<lambda>m. m_session_id m = sid) (messages (persisted w'))) =
             map int [1..<Suc (length ms)] \<and>
           get_conversation_history sid w' = (Inr (map history_entry_of ms), w')"
proof -
  obtain rs w' where run: "save_messages sid ms w = (rs, w')"
    by (cases "save_messages sid ms w")
  let ?new = "filter (\<lambda>m. m_session_id m = sid) (messages (persisted w'))"
  have inv0: "map sequence_number (filter (\<lambda>m. m_session_id m = sid) (messages (persisted w))) =
         map int [1..<Suc 0]" using assms(3) by simp
  from save_messages_run [OF assms(1,2) inv0 assms(4,5)] run assms(3)
  have rs: "rs = replicate (length ms) (Inr ())" and up: "db_up w'"
    and seqs: "map sequence_number ?new = map int [1..<Suc (length ms)]"
    and cont: "map (\<lambda>m. (sender_type m, content m, m_created_at m)) ?new = ms"
    by auto
  have "sorted (map sequence_number ?new)"
    unfolding seqs by (rule sorted_int_upt)
  then have sorted_id: "select_messages sid (persisted w') = ?new"
    by (simp add: select_messages_def sort_key_id_if_sorted)
  have "map (\<lambda>msg. \<lparr>h_role = sender_type msg, h_content = content msg,
                     h_timestamp = strftime (m_created_at msg)\<rparr>) ?new =
        map history_entry_of (map (\<lambda>m. (sender_type m, content m, m_created_at m)) ?new)"
    by (simp add: history_entry_of_def)
  also have "\<dots> = map history_entry_of ms" by (simp only: cont)
  finally have "get_conversation_history sid w' = (Inr (map history_entry_of ms), w')"
    using up sorted_id
    by (simp add: get_conversation_history_def get_conversation_history_body_def
          get_db_connection_up)
  with rs seqs run show ?thesis by simp
qed

theorem appended_messages_are_numbered_in_order_witness:
  "db_up sample_world \<and> ''s-a2'' \<in> set (map session_id (sessions (persisted sample_world))) \<and>
   filter (\<lambda>m. m_session_id m = ''s-a2'') (messages (persisted sample_world)) = [] \<and>
   \<not> has_nul ''s-a2'' \<and>
   list_all (\<lambda>(sender, c, now). \<not> has_nul sender \<and> \<not> has_nul c) two_messages \<and>
   fst (save_messages ''s-a2'' two_messages sample_world) = [Inr (), Inr ()] \<and>
   map sequence_number (filter (\<lambda>m. m_session_id m = ''s-a2'')
     (messages (persisted (snd (save_messages ''s-a2'' two_messages sample_world))))) = [1, 2] \<and>
   fst (get_conversation_history ''s-a2''
          (snd (save_messages ''s-a2'' two_messages sample_world))) =
     Inr [\<lparr>h_role = ''user'', h_content = ''hi'', h_timestamp = ''2025-01-02 03:04:07''\<rparr>,
          \<lparr>h_role = ''assistant'', h_content = unicode_text,
            h_timestamp = ''2025-01-02 03:04:08''\<rparr>]"
proof -
  have h1: "db_up sample_world"
    by (simp add: at_second_def ann_def bob_def hello_message_def sample_db_def sample_world_def)
  have h2: "''s-a2'' \<in> set (map session_id (sessions (persisted sample_world)))"
    by (simp add: at_second_def ann_def bob_def hello_message_def sample_db_def sample_world_def)
  have h3: "filter (\<lambda>m. m_session_id m = ''s-a2'') (messages (persisted sample_world)) = []"
    by (simp add: at_second_def ann_def bob_def hello_message_def sample_db_def sample_world_def)
  have h4: "\<not> has_nul ''s-a2''" by (simp add: has_nul_def)
  have h5: "\<forall>(sender, c, now)\<in>set two_messages. \<not> has_nul sender \<and> \<not> has_nul c"
    by (simp add: two_messages_def unicode_text_def has_nul_def)
  have entries: "map history_entry_of two_messages =
     [\<lparr>h_role = ''user'', h_content = ''hi'', h_timestamp = ''2025-01-02 03:04:07''\<rparr>,
      \<lparr>h_role = ''assistant'', h_content = unicode_text,
        h_timestamp = ''2025-01-02 03:04:08''\<rparr>]"
    by (simp add: two_messages_def history_entry_of_def at_second_def format_defs)
  have len: "length two_messages = Suc (Suc 0)" by (simp add: two_messages_def)
  from appended_messages_are_numbered_in_order [OF h1 h2 h3 h4 h5]
    h1 h2 h3 h4 h5
  show ?thesis
    by (simp add: entries len upt_rec list_all_iff split: prod.splits)
qed

text \<open>
  Claim C8, as stated, fails for a text that holds a NUL character: the append of such a
  text to Ann's first session raises \<open>ValueError\<close> and changes nothing, and the history
  read afterwards is the one message that was there before.
\<close>

theorem nul_content_is_refused:
  "save_message ''s-a1'' ''assistant'' nul_text (at_second 9) sample_world =
     (Inl ValueError, sample_world) \<and>
   get_conversation_history ''s-a1'' sample_world =
     (Inr [\<lparr>h_role = ''user'', h_content = ''hello'',
            h_timestamp = ''2025-01-02 03:04:06''\<rparr>], sample_world)"
  by (simp add: at_second_def ann_def bob_def hello_message_def sample_db_def sample_world_def
        nul_text_def has_nul_def format_defs save_message_def save_message_body_def
        select_next_seq_def insert_message_def get_conversation_history_def
        get_conversation_history_body_def select_messages_def get_db_connection_up)

text \<open>
  Claim C8, amended.  With the server reachable and the session present, appending a
  message none of whose strings (session id, sender type, text) holds a NUL character
  succeeds, whatever other bytes the text holds, and the history read afterwards is the
  history read before followed by one entry whose content is the appended string,
  unchanged, and whose role is the sender type passed to the append.
\<close>

theorem appended_content_reads_back_unchanged:
  assumes "db_up w" and "sid \<in> set (map session_id (sessions (persisted w)))"
    and "\<not> has_nul sid" and "\<not> has_nul sender" and "\<not> has_nul c"
  shows "\<exists>before. get_conversation_history sid w = (Inr before, w) \<and>
           (case save_message sid sender c now w of (r, w') \<Rightarrow>
              r = Inr () \<and>
              get_conversation_history sid w' =
                (Inr (before @ [\<lparr>h_role = sender, h_content = c,
                                  h_timestamp = strftime now\<rparr>]), w'))"
proof -
  let ?old = "filter (\<lambda>m. m_session_id m = sid) (messages (persisted w))"
  let ?m = "\<lparr>message_id = next_id (map message_id (messages (persisted w))), m_session_id = sid,
          sender_type = sender, content = c,
          sequence_number = next_seq sid (persisted w), m_created_at = now\<rparr>"
  let ?w = "w\<lparr>persisted := (persisted w)\<lparr>messages := messages (persisted w) @ [?m]\<rparr>\<rparr>"
  let ?entry = "\<lambda>msg. \<lparr>h_role = sender_type msg, h_content = content msg,
                     h_timestamp = strftime (m_created_at msg)\<rparr>"
  have step: "save_message sid sender c now w = (Inr (), ?w)"
    using save_message_ok [OF assms] .
  have "\<forall>y\<in>set ?old. sequence_number y \<le> sequence_number ?m"
    using next_seq_upper [of _ "persisted w" sid] by fastforce
  then have "sort_key sequence_number (?old @ [?m]) = sort_key sequence_number ?old @ [?m]"
    by (rule sort_key_snoc)
  then have sel: "select_messages sid (persisted ?w) = select_messages sid (persisted w) @ [?m]"
    by (simp add: select_messages_def)
  have before: "get_conversation_history sid w =
     (Inr (map ?entry (select_messages sid (persisted w))), w)"
    using assms(1)
    by (simp add: get_conversation_history_def get_conversation_history_body_def
          get_db_connection_up)
  have after: "get_conversation_history sid ?w =
     (Inr (map ?entry (select_messages sid (persisted w)) @
        [\<lparr>h_role = sender, h_content = c, h_timestamp = strftime now\<rparr>]), ?w)"
    using assms(1) sel
    by (simp add: get_conversation_history_def get_conversation_history_body_def
          get_db_connection_up)
  from before after step show ?thesis by simp
qed

theorem appended_content_reads_back_unchanged_witness:
  "db_up sample_world \<and> ''s-a1'' \<in> set (map session_id (sessions (persisted sample_world))) \<and>
   \<not> has_nul ''s-a1'' \<and> \<not> has_nul ''assistant'' \<and> \<not> has_nul unicode_text \<and>
   fst (get_conversation_history ''s-a1'' sample_world) =
     Inr [\<lparr>h_role = ''user'', h_content = ''hello'', h_timestamp = ''2025-01-02 03:04:06''\<rparr>] \<and>
   fst (save_message ''s-a1'' ''assistant'' unicode_text (at_second 9) sample_world) = Inr () \<and>
   fst (get_conversation_history ''s-a1''
          (snd (save_message ''s-a1'' ''assistant'' unicode_text (at_second 9) sample_world))) =
     Inr [\<lparr>h_role = ''user'', h_content = ''hello'', h_timestamp = ''2025-01-02 03:04:06''\<rparr>,
          \<lparr>h_role = ''assistant'', h_content = unicode_text,
            h_timestamp = ''2025-01-02 03:04:09''\<rparr>]"
proof -
  have h1: "db_up sample_world"
    by (simp add: at_second_def ann_def bob_def hello_message_def sample_db_def sample_world_def)
  have h2: "''s-a1'' \<in> set (map session_id (sessions (persisted sample_world)))"
    by (simp add: at_second_def ann_def bob_def hello_message_def sample_db_def sample_world_def)
  have h3: "\<not> has_nul ''s-a1''" by (simp add: has_nul_def)
  have h4: "\<not> has_nul ''assistant''" by (simp add: has_nul_def)
  have h5: "\<not> has_nul unicode_text" by (simp add: has_nul_def unicode_text_def)
  have before: "get_conversation_history ''s-a1'' sample_world =
     (Inr [\<lparr>h_role = ''user'', h_content = ''hello'',
            h_timestamp = ''2025-01-02 03:04:06''\<rparr>], sample_world)"
    by (simp add: at_second_def ann_def bob_def hello_message_def sample_db_def sample_world_def
          format_defs get_conversation_history_def
          get_conversation_history_body_def select_messages_def get_db_connection_up)
  have stamp: "strftime (at_second 9) = ''2025-01-02 03:04:09''"
    by (simp add: at_second_def format_defs)
  from appended_content_reads_back_unchanged [OF h1 h2 h3 h4 h5, where now = "at_second 9"]
    h1 h2 h3 h4 h5
  show ?thesis
    by (auto simp: before stamp split: prod.splits)
qed

section \<open>Message log: two appends to one session\<close>

text \<open>
  Claim C4, as stated, fails: \<open>save_message\<close> reads the maximum and inserts in two
  statements, and nothing in the source holds a lock between them or declares the pair
  \<open>(session_id, sequence_number)\<close> unique.  Two appends to Ann's first session, which
  has one message numbered 1, both read the maximum before either inserts: both succeed,
  and both new messages carry the sequence number 2.
\<close>

theorem interleaved_appends_share_a_sequence_number:
  "fst (save_message_reads_first ''s-a1'' (''user'', ''one'', at_second 8)
          (''assistant'', ''two'', at_second 8) sample_db) = (Inr (), Inr ()) \<and>
   map sequence_number (filter (\<lambda>m. m_session_id m = ''s-a1'')
     (messages (snd (save_message_reads_first ''s-a1'' (''user'', ''one'', at_second 8)
          (''assistant'', ''two'', at_second 8) sample_db)))) = [1, 2, 2]"
  by (simp add: at_second_def ann_def bob_def hello_message_def sample_db_def
        save_message_reads_first_def select_next_seq_def has_nul_def insert_message_def
        next_seq_def next_id_def)

text \<open>
  Claim C4, amended.  Two appends to the same session that run one after the other, the
  second starting when the first has committed, never give their messages the same
  sequence number: with the server reachable, the session present and no NUL character
  in the strings, both succeed, the first message gets one more than the session's
  maximum (1 when there is none), above every number the session already holds, and the
  second message gets one more than the first.  (Appends whose reads both come before
  either insert are not covered: the pair of statements is not atomic.)
\<close>

theorem sequential_appends_get_distinct_sequence_numbers:
  assumes "db_up w" and "sid \<in> set (map session_id (sessions (persisted w)))"
    and "\<not> has_nul sid"
    and "\<not> has_nul sender_a" and "\<not> has_nul c_a"
    and "\<not> has_nul sender_b" and "\<not> has_nul c_b"
  shows "case save_message sid sender_a c_a now_a w of (r_a, w1) \<Rightarrow>
         case save_message sid sender_b c_b now_b w1 of (r_b, w2) \<Rightarrow>
           r_a = Inr () \<and> r_b = Inr () \<and>
           (\<exists>m_a m_b. messages (persisted w2) = messages (persisted w) @ [m_a, m_b] \<and>
              m_session_id m_a = sid \<and> m_session_id m_b = sid \<and>
              sequence_number m_a = next_seq sid (persisted w) \<and>
              sequence_number m_b = sequence_number m_a + 1 \<and>
              (\<forall>m\<in>set (messages (persisted w)).
                 m_session_id m = sid \<longrightarrow> sequence_number m < sequence_number m_a))"
proof -
  let ?d = "persisted w"
  let ?ma = "\<lparr>message_id = next_id (map message_id (messages ?d)), m_session_id = sid,
          sender_type = sender_a, content = c_a,
          sequence_number = next_seq sid ?d, m_created_at = now_a\<rparr>"
  let ?d1 = "?d\<lparr>messages := messages ?d @ [?ma]\<rparr>"
  let ?w1 = "w\<lparr>persisted := ?d1\<rparr>"
  let ?mb = "\<lparr>message_id = next_id (map message_id (messages ?d1)), m_session_id = sid,
          sender_type = sender_b, content = c_b,
          sequence_number = next_seq sid ?d1, m_created_at = now_b\<rparr>"
  let ?w2 = "?w1\<lparr>persisted := ?d1\<lparr>messages := messages ?d1 @ [?mb]\<rparr>\<rparr>"
  have first: "save_message sid sender_a c_a now_a w = (Inr (), ?w1)"
    using save_message_ok [OF assms(1,2,3,4,5)] .
  have up: "db_up ?w1" using assms(1) by simp
  have ex: "sid \<in> set (map session_id (sessions (persisted ?w1)))" using assms(2) by simp
  have second: "save_message sid sender_b c_b now_b ?w1 = (Inr (), ?w2)"
    using save_message_ok [OF up ex assms(3,6,7)] by simp
  have next2: "next_seq sid ?d1 = next_seq sid ?d + 1"
    by (rule next_seq_after_append) simp_all
  have above: "\<forall>m\<in>set (messages ?d). m_session_id m = sid \<longrightarrow>
                 sequence_number m < next_seq sid ?d"
    using next_seq_upper by blast
  have "messages (persisted ?w2) = messages ?d @ [?ma, ?mb] \<and>
        m_session_id ?ma = sid \<and> m_session_id ?mb = sid \<and>
        sequence_number ?ma = next_seq sid ?d \<and>
        sequence_number ?mb = sequence_number ?ma + 1 \<and>
        (\<forall>m\<in>set (messages ?d). m_session_id m = sid \<longrightarrow>
           sequence_number m < sequence_number ?ma)"
    using next2 above by simp
  then have "\<exists>m_a m_b. messages (persisted ?w2) = messages ?d @ [m_a, m_b] \<and>
        m_session_id m_a = sid \<and> m_session_id m_b = sid \<and>
        sequence_number m_a = next_seq sid ?d \<and>
        sequence_number m_b = sequence_number m_a + 1 \<and>
        (\<forall>m\<in>set (messages ?d). m_session_id m = sid \<longrightarrow>
           sequence_number m < sequence_number m_a)"
    by blast
  with first second show ?thesis by simp
qed

theorem sequential_appends_get_distinct_sequence_numbers_witness:
  "db_up sample_world \<and> ''s-a1'' \<in> set (map session_id (sessions (persisted sample_world))) \<and>
   \<not> has_nul ''s-a1'' \<and> \<not> has_nul ''user'' \<and> \<not> has_nul ''one'' \<and>
   \<not> has_nul ''assistant'' \<and> \<not> has_nul ''two'' \<and>
   fst (save_message ''s-a1'' ''user'' ''one'' (at_second 8) sample_world) = Inr () \<and>
   fst (save_message ''s-a1'' ''assistant'' ''two'' (at_second 8)
          (snd (save_message ''s-a1'' ''user'' ''one'' (at_second 8) sample_world))) = Inr () \<and>
   map sequence_number (filter (\<lambda>m. m_session_id m = ''s-a1'')
     (messages (persisted (snd (save_message ''s-a1'' ''assistant'' ''two'' (at_second 8)
          (snd (save_message ''s-a1'' ''user'' ''one'' (at_second 8) sample_world))))))) =
     [1, 2, 3]"
  using sequential_appends_get_distinct_sequence_numbers
          [where w = sample_world and sid = "''s-a1''" and sender_a = "''user''"
             and c_a = "''one''" and sender_b = "''assistant''" and c_b = "''two''"
             and now_a = "at_second 8" and now_b = "at_second 8"]
  by (simp add: at_second_def ann_def bob_def hello_message_def sample_db_def sample_world_def
        has_nul_def save_message_def save_message_body_def select_next_seq_def
        insert_message_def next_seq_def next_id_def get_db_connection_up)

section \<open>Session names: creation against listing\<close>





subsection \<open>The listing query on a student's sessions in creation order\<close>

lemma join_one_session:
  "concat (map (\<lambda>(s, st'). if email st' = e then R s else [])
       (concat (map (\<lambda>st'. if s_student_id s = student_id st' then [(s, st')] else []) sts))) =
   concat (map (\<lambda>st'. R s)
       (filter (\<lambda>st'. s_student_id s = student_id st') (filter (\<lambda>st'. email st' = e) sts)))"
  by (induction sts) auto

lemma join_sessions:
  assumes "filter (\<lambda>st'. email st' = e) sts = [st]"
  shows "concat (map (\<lambda>(s, st'). if email st' = e then R s else [])
       (concat (map (\<lambda>s. concat
            (map (\<lambda>st'. if s_student_id s = student_id st' then [(s, st')] else []) sts)) ses))) =
     concat (map R (filter (\<lambda>s. s_student_id s = student_id st) ses))"
proof (induction ses)
  case Nil
  then show ?case by simp
next
  case (Cons s ses)
  have "concat (map (\<lambda>(s, st'). if email st' = e then R s else [])
       (concat (map (\<lambda>st'. if s_student_id s = student_id st' then [(s, st')] else []) sts))) =
     (if s_student_id s = student_id st then R s else [])"
    by (simp only: join_one_session assms) simp
  with Cons.IH show ?case by simp
qed


















section \<open>Session names: the single-session lookup\<close>

text \<open>
  What the lookup computes in general: for a student whose sessions have distinct ids and
  strictly increasing creation times, the session at position \<open>i\<close> of the \<open>N\<close> sessions
  in creation order (positions from 0) is named \<open>Session-(N - i)\<close>, the number of
  sessions created at or after it.
\<close>

lemma map_fst_filter_join:
  "map fst (filter (\<lambda>(s, st'). P s \<and> email st' = e) xs) =
   concat (map (\<lambda>(s, st'). if email st' = e then (if P s then [s] else []) else []) xs)"
  by (induction xs) (auto split: if_splits)

lemma concat_singleton_filter: "concat (map (\<lambda>s. if P s then [s] else []) xs) = filter P xs"
  by (induction xs) auto

lemma join_filter_sessions:
  assumes "filter (\<lambda>st'. email st' = e) (students d) = [st]"
  shows "map fst (filter (\<lambda>(s, st'). P s \<and> email st' = e) (sessions_join_students d)) =
         filter P (filter (\<lambda>s. s_student_id s = student_id st) (sessions d))"
  unfolding map_fst_filter_join sessions_join_students_def
  by (simp only: join_sessions [OF assms] concat_singleton_filter)

lemma count_at_or_after:
  fixes f :: "'a \<Rightarrow> 'b::linorder"
  shows "sorted_wrt (<) (map f xs) \<Longrightarrow> i < length xs \<Longrightarrow>
         length (filter (\<lambda>x. f (xs ! i) \<le> f x) xs) = length xs - i"
proof (induction xs arbitrary: i)
  case Nil
  then show ?case by simp
next
  case (Cons a xs)
  show ?case
  proof (cases i)
    case 0
    have "\<forall>x\<in>set xs. f a \<le> f x" using Cons.prems(1) by auto
    then have "filter (\<lambda>x. f a \<le> f x) xs = xs" by (simp add: filter_id_conv)
    with 0 show ?thesis by simp
  next
    case (Suc j)
    with Cons.prems have j: "j < length xs" and s: "sorted_wrt (<) (map f xs)" by auto
    have "f a < f (xs ! j)" using Cons.prems(1) j by auto
    then have "\<not> f (xs ! j) \<le> f a" by simp
    with Cons.IH [OF s j] Suc show ?thesis by simp
  qed
qed

lemma filter_eq_nth:
  "distinct (map g xs) \<Longrightarrow> i < length xs \<Longrightarrow> filter (\<lambda>x. g x = g (xs ! i)) xs = [xs ! i]"
proof (induction xs arbitrary: i)
  case Nil
  then show ?case by simp
next
  case (Cons a xs)
  show ?case
  proof (cases i)
    case 0
    have "g a \<notin> g ` set xs" using Cons.prems(1) by simp
    then have "\<forall>x\<in>set xs. g x \<noteq> g a" by (metis image_eqI)
    then have "filter (\<lambda>x. g x = g a) xs = []" by (simp add: filter_empty_conv)
    with 0 show ?thesis by simp
  next
    case (Suc j)
    with Cons.prems have j: "j < length xs" and d: "distinct (map g xs)" by auto
    have "g a \<noteq> g (xs ! j)" using Cons.prems(1) j by auto
    with Cons.IH [OF d j] Suc show ?thesis by simp
  qed
qed

lemma get_session_name_counts_from_the_end:
  assumes up: "db_up w"
    and one: "filter (\<lambda>st'. email st' = e) (students (persisted w)) = [st]"
    and ss: "ss = filter (\<lambda>s. s_student_id s = student_id st) (sessions (persisted w))"
    and ids: "distinct (map session_id ss)"
    and times: "sorted_wrt (<) (map (\<lambda>s. dt_key (s_created_at s)) ss)"
    and i: "i < length ss"
  shows "get_session_name (session_id (ss ! i)) e w =
           (Inr (Some (''Session-'' @ str_nat (length ss - i))), w)"
proof -
  let ?d = "persisted w"
  let ?sid = "session_id (ss ! i)"
  let ?rows = "filter (\<lambda>(s, st'). session_id s = ?sid \<and> email st' = e) (sessions_join_students ?d)"
  have "map fst ?rows = filter (\<lambda>s. session_id s = ?sid) ss"
    unfolding ss by (rule join_filter_sessions [OF one])
  also have "\<dots> = [ss ! i]" using ids i by (rule filter_eq_nth)
  finally have "map fst ?rows = [ss ! i]" .
  then obtain st' where rows: "?rows = [(ss ! i, st')]"
    by (cases ?rows) auto
  have "filter (\<lambda>(s2, st2). email st2 = e \<and>
                 dt_key (s_created_at (ss ! i)) \<le> dt_key (s_created_at s2))
               (sessions_join_students ?d) =
        filter (\<lambda>(s2, st2).
                 dt_key (s_created_at (ss ! i)) \<le> dt_key (s_created_at s2) \<and> email st2 = e)
               (sessions_join_students ?d)"
    by (rule filter_cong) auto
  then have "length (filter (\<lambda>(s2, st2). email st2 = e \<and>
                 dt_key (s_created_at (ss ! i)) \<le> dt_key (s_created_at s2))
               (sessions_join_students ?d)) =
        length (map fst (filter (\<lambda>(s2, st2).
                 dt_key (s_created_at (ss ! i)) \<le> dt_key (s_created_at s2) \<and> email st2 = e)
               (sessions_join_students ?d)))"
    by (simp only: length_map)
  also have "\<dots> = length (filter (\<lambda>s2. dt_key (s_created_at (ss ! i)) \<le> dt_key (s_created_at s2)) ss)"
    unfolding ss by (simp only: join_filter_sessions [OF one])
  also have "\<dots> = length ss - i"
    using count_at_or_after [OF times i] by simp
  finally have cnt: "length (filter (\<lambda>(s2, st2). email st2 = e \<and>
                 dt_key (s_created_at (ss ! i)) \<le> dt_key (s_created_at s2))
               (sessions_join_students ?d)) = length ss - i" .
  have "select_session_number ?sid e ?d = Some (length ss - i)"
    unfolding select_session_number_def by (simp only: rows) (simp add: cnt)
  then show ?thesis
    using up
    by (simp add: get_session_name_def get_session_name_body_def get_db_connection_up)
qed

text \<open>
  Claim C2 fails on the code.  Ann creates two sessions, \<open>s1\<close> and then \<open>s2\<close>;
  \<open>create_session\<close> names them \<open>Session-1\<close> and \<open>Session-2\<close>.  \<open>get_session_name\<close>
  counts the sessions created at or after the one asked for, so it answers \<open>Session-2\<close>
  for the earliest session \<open>s1\<close> and \<open>Session-1\<close> for the latest session \<open>s2\<close>.
\<close>

theorem get_session_name_inverts_the_numbering:
  "case create_session 1 ''Pritam'' ''s1'' (at_second 3) fresh_world of (r1, w1) \<Rightarrow>
   case create_session 1 ''Pritam'' ''s2'' (at_second 4) w1 of (r2, w2) \<Rightarrow>
     r1 = Inr (''s1'', ''Session-1'') \<and> r2 = Inr (''s2'', ''Session-2'') \<and>
     fst (get_session_name ''s1'' ''ann@x.org'' w2) = Inr (Some ''Session-2'') \<and>
     fst (get_session_name ''s2'' ''ann@x.org'' w2) = Inr (Some ''Session-1'')"
  by (simp add: at_second_def ann_def bob_def fresh_world_def format_defs get_db_connection_def connect_def commit_def
        rollback_def close_def create_session_def create_session_body_def insert_session_def
        count_sessions_def get_session_name_def get_session_name_body_def
        select_session_number_def sessions_join_students_def)

end
